theory Spec2Isabelle
  imports Main
begin

section \<open>Python values the helpers work with\<close>

text \<open>
  Exceptions are values. The payload of an exception is its message; \<open>OtherError\<close>
  stands for any exception class the helpers never look at (kind, payload).
\<close>

datatype pyerror =
    TypeError string
  | IndexError string
  | ValueError string
  | KeyError string
  | AttributeError string
  | AssertionError
  | OtherError string string

text \<open>The outcome of a mutating method: the object as it is when the call ends.\<close>

datatype 's outcome = Ok 's | Raise pyerror 's

text \<open>A \<open>slice\<close> object: each of start, stop and step may be \<open>None\<close>.\<close>

record pyslice =
  start :: "int option"
  stop :: "int option"
  step :: "int option"

text \<open>
  The builtin \<open>slice.indices(length)\<close>, as CPython computes it: the step defaults to 1 and
  must not be zero, start and stop are wrapped when negative and clamped to
  \<open>[lower, upper]\<close>.
\<close>

definition slice_indices :: "pyslice \<Rightarrow> int \<Rightarrow> pyerror + (int \<times> int \<times> int)" where
  "slice_indices sl len =
     (let stp = (case step sl of None \<Rightarrow> 1 | Some k \<Rightarrow> k) in
      if stp = 0 then Inl (ValueError ''slice step cannot be zero'')
      else
        let lower = (if stp < 0 then - 1 else 0);
            upper = (if stp < 0 then len - 1 else len);
            sta = (case start sl of
                     None \<Rightarrow> (if stp < 0 then upper else lower)
                   | Some a \<Rightarrow> (if a < 0 then max (a + len) lower else min a upper));
            sto = (case stop sl of
                     None \<Rightarrow> (if stp < 0 then lower else upper)
                   | Some b \<Rightarrow> (if b < 0 then max (b + len) lower else min b upper))
        in Inr (sta, sto, stp))"

text \<open>
  A \<open>range\<close> object with a non-zero step. \<open>range_len\<close> is \<open>len(r)\<close>, \<open>range_list\<close> the
  integers it yields in order, \<open>range_start\<close> its \<open>start\<close> attribute.
\<close>

datatype pyrange = PyRange (range_start: int) (range_stop: int) (range_step: int)

definition range_len :: "pyrange \<Rightarrow> nat" where
  "range_len r =
     (case r of PyRange a b c \<Rightarrow>
        if 0 < c \<and> a < b then nat ((b - a - 1) div c + 1)
        else if c < 0 \<and> b < a then nat ((a - b - 1) div (- c) + 1)
        else 0)"

definition range_list :: "pyrange \<Rightarrow> int list" where
  "range_list r = map (\<lambda>k. range_start r + int k * range_step r) [0..<range_len r]"

text \<open>\<open>str(n)\<close> for a length, as the f-string of the size-mismatch message formats it.\<close>

definition digit_char :: "nat \<Rightarrow> char" where
  "digit_char d = char_of (48 + d)"

function str_nat :: "nat \<Rightarrow> string" where
  "str_nat n = (if n < 10 then [digit_char n] else str_nat (n div 10) @ [digit_char (n mod 10)])"
  by pat_completeness auto
termination
  by (relation "measure id") auto

declare str_nat.simps [simp del]

section \<open>The sequence helper\<close>

text \<open>
  The methods the decorated class brings along: \<open>__len__\<close>, its own \<open>__getitem__\<close>
  (for an integer in \<open>[0, len)\<close>) and its constructor from an iterable of elements; a
  mutable sequence adds \<open>__delitem__\<close>, \<open>insert\<close> and \<open>__setitem__\<close>. The object's state
  is \<open>'s\<close>, its elements are \<open>'a\<close>.
\<close>

record ('s, 'a) seq_cls =
  cls_len :: "'s \<Rightarrow> nat"
  cls_getitem :: "'s \<Rightarrow> int \<Rightarrow> pyerror + 'a"
  cls_new :: "'a list \<Rightarrow> pyerror + 's"

record ('s, 'a) mutseq_cls = "('s, 'a) seq_cls" +
  cls_delitem :: "'s \<Rightarrow> int \<Rightarrow> 's outcome"
  cls_insert :: "'s \<Rightarrow> int \<Rightarrow> 'a \<Rightarrow> 's outcome"
  cls_setitem :: "'s \<Rightarrow> int \<Rightarrow> 'a \<Rightarrow> 's outcome"

text \<open>
  What a subscript can be: a slice, an \<open>int\<close>, an object with an \<open>__index__\<close> method
  (returning the given integer), or an object without one.
\<close>

datatype pyindex = PyInt int | PyIndexable int | PyOther

datatype subscript = Slice pyslice | Index pyindex

text \<open>\<open>deslice\<close>: \<open>range(*index.indices(len(self)))\<close>.\<close>

definition deslice :: "('s, 'a, 'z) seq_cls_scheme \<Rightarrow> 's \<Rightarrow> pyslice \<Rightarrow> pyerror + pyrange" where
  "deslice cls self index =
     (case slice_indices index (int (cls_len cls self)) of
        Inl e \<Rightarrow> Inl e
      | Inr (a, b, c) \<Rightarrow> Inr (PyRange a b c))"

text \<open>\<open>_posintify\<close> (an Isabelle name cannot begin with an underscore).\<close>

definition u_posintify :: "('s, 'a, 'z) seq_cls_scheme \<Rightarrow> 's \<Rightarrow> pyindex \<Rightarrow> pyerror + int" where
  "u_posintify cls self index =
     (case (case index of
              PyInt i \<Rightarrow> Inr i
            | PyIndexable i \<Rightarrow> Inr i
            | PyOther \<Rightarrow> Inl (TypeError ''indices must be integers'')) of
        Inl e \<Rightarrow> Inl e
      | Inr i \<Rightarrow> Inr (if i < 0 then i + int (cls_len cls self) else i))"

definition posintify :: "('s, 'a, 'z) seq_cls_scheme \<Rightarrow> 's \<Rightarrow> pyindex \<Rightarrow> pyerror + int" where
  "posintify cls self index =
     (case u_posintify cls self index of
        Inl e \<Rightarrow> Inl e
      | Inr i \<Rightarrow>
          if i < 0 \<or> i \<ge> int (cls_len cls self) then Inl (IndexError ''index out of range'')
          else Inr i)"

definition posinttruncify :: "('s, 'a, 'z) seq_cls_scheme \<Rightarrow> 's \<Rightarrow> pyindex \<Rightarrow> pyerror + int" where
  "posinttruncify cls self index =
     (case u_posintify cls self index of
        Inl e \<Rightarrow> Inl e
      | Inr i \<Rightarrow>
          let i1 = (if i < 0 then 0 else i);
              i2 = (if i1 > int (cls_len cls self) then int (cls_len cls self) else i1)
          in Inr i2)"

text \<open>
  Running a generator expression \<open>(g(i) for i in indices)\<close> to its end: the elements in
  order, or the first exception.
\<close>

fun collect :: "(int \<Rightarrow> pyerror + 'a) \<Rightarrow> int list \<Rightarrow> pyerror + 'a list" where
  "collect g [] = Inr []"
| "collect g (i # is) =
     (case g i of
        Inl e \<Rightarrow> Inl e
      | Inr v \<Rightarrow> (case collect g is of Inl e \<Rightarrow> Inl e | Inr vs \<Rightarrow> Inr (v # vs)))"

text \<open>
  The wrapper \<open>__getitem__\<close>. Its two branches are named, as the other methods re-enter
  them; the result is an element or a new object of the class.
\<close>

datatype ('s, 'a) item = Element 'a | Container 's

definition seq_getitem_slice :: "('s, 'a, 'z) seq_cls_scheme \<Rightarrow> 's \<Rightarrow> pyslice \<Rightarrow> pyerror + 's" where
  "seq_getitem_slice cls self index =
     (case deslice cls self index of
        Inl e \<Rightarrow> Inl e
      | Inr indices \<Rightarrow>
          (case collect (cls_getitem cls self) (range_list indices) of
             Inl e \<Rightarrow> Inl e
           | Inr vs \<Rightarrow> cls_new cls vs))"

definition seq_getitem_index :: "('s, 'a, 'z) seq_cls_scheme \<Rightarrow> 's \<Rightarrow> pyindex \<Rightarrow> pyerror + 'a" where
  "seq_getitem_index cls self index =
     (case posintify cls self index of
        Inl e \<Rightarrow> Inl e
      | Inr i \<Rightarrow> cls_getitem cls self i)"

definition seq_getitem :: "('s, 'a, 'z) seq_cls_scheme \<Rightarrow> 's \<Rightarrow> subscript \<Rightarrow> pyerror + ('s, 'a) item" where
  "seq_getitem cls self index =
     (case index of
        Slice sl \<Rightarrow> map_sum id Container (seq_getitem_slice cls self sl)
      | Index i \<Rightarrow> map_sum id Element (seq_getitem_index cls self i))"

text \<open>
  \<open>tuple(self)\<close>: the class inherits \<open>Sequence.__iter__\<close>, which reads \<open>self[0]\<close>,
  \<open>self[1]\<close>, ... through the wrapper \<open>__getitem__\<close> and stops at the first
  \<open>IndexError\<close>; \<open>self[len(self)]\<close> raises it at the latest.
\<close>

fun is_IndexError :: "pyerror \<Rightarrow> bool" where
  "is_IndexError (IndexError m) = True"
| "is_IndexError e = False"

fun iter_until_IndexError :: "(int \<Rightarrow> pyerror + 'a) \<Rightarrow> int list \<Rightarrow> pyerror + 'a list" where
  "iter_until_IndexError g [] = Inr []"
| "iter_until_IndexError g (i # is) =
     (case g i of
        Inl e \<Rightarrow> (if is_IndexError e then Inr [] else Inl e)
      | Inr v \<Rightarrow>
          (case iter_until_IndexError g is of Inl e \<Rightarrow> Inl e | Inr vs \<Rightarrow> Inr (v # vs)))"

definition tuple_self :: "('s, 'a, 'z) seq_cls_scheme \<Rightarrow> 's \<Rightarrow> pyerror + 'a list" where
  "tuple_self cls self =
     iter_until_IndexError (\<lambda>i. seq_getitem_index cls self (PyInt i))
       (map int [0..<Suc (cls_len cls self)])"

text \<open>The wrapper \<open>__delitem__\<close>; \<open>delitem_each\<close> is its \<open>for\<close> loop.\<close>

fun delitem_each :: "('s, 'a, 'z) mutseq_cls_scheme \<Rightarrow> 's \<Rightarrow> int list \<Rightarrow> 's outcome" where
  "delitem_each cls self [] = Ok self"
| "delitem_each cls self (i # is) =
     (case cls_delitem cls self i of
        Raise e self' \<Rightarrow> Raise e self'
      | Ok self' \<Rightarrow> delitem_each cls self' is)"

definition seq_delitem :: "('s, 'a, 'z) mutseq_cls_scheme \<Rightarrow> 's \<Rightarrow> subscript \<Rightarrow> 's outcome" where
  "seq_delitem cls self index =
     (case index of
        Slice sl \<Rightarrow>
          (case deslice cls self sl of
             Inl e \<Rightarrow> Raise e self
           | Inr indices \<Rightarrow> delitem_each cls self (rev (range_list indices)))
      | Index i \<Rightarrow>
          (case posintify cls self i of
             Inl e \<Rightarrow> Raise e self
           | Inr j \<Rightarrow> cls_delitem cls self j))"

text \<open>The wrapper \<open>insert\<close>.\<close>

definition seq_insert :: "('s, 'a, 'z) mutseq_cls_scheme \<Rightarrow> 's \<Rightarrow> pyindex \<Rightarrow> 'a \<Rightarrow> 's outcome" where
  "seq_insert cls self index v =
     (case posinttruncify cls self index of
        Inl e \<Rightarrow> Raise e self
      | Inr j \<Rightarrow> cls_insert cls self j v)"

text \<open>
  The wrapper \<open>__setitem__\<close>. An integer subscript takes an element; a slice takes the
  object itself (\<open>value is self\<close>), another iterable (the elements it yields) or a value
  that cannot be iterated.
\<close>

datatype 'a source = Self | Iterable "'a list" | NotIterable

datatype 'a assignment = SetIndex pyindex 'a | SetSlice pyslice "'a source"

definition seq_setitem_index :: "('s, 'a, 'z) mutseq_cls_scheme \<Rightarrow> 's \<Rightarrow> pyindex \<Rightarrow> 'a \<Rightarrow> 's outcome" where
  "seq_setitem_index cls self index v =
     (case posintify cls self index of
        Inl e \<Rightarrow> Raise e self
      | Inr j \<Rightarrow> cls_setitem cls self j v)"

text \<open>\<open>for i, v in zip(indices, values): self[i] = v\<close>\<close>

fun setitem_each :: "('s, 'a, 'z) mutseq_cls_scheme \<Rightarrow> 's \<Rightarrow> (int \<times> 'a) list \<Rightarrow> 's outcome" where
  "setitem_each cls self [] = Ok self"
| "setitem_each cls self ((i, v) # ivs) =
     (case seq_setitem_index cls self (PyInt i) v of
        Raise e self' \<Rightarrow> Raise e self'
      | Ok self' \<Rightarrow> setitem_each cls self' ivs)"

text \<open>\<open>for i, value in enumerate(values, start=indices.start): _insert(self, i, value)\<close>\<close>

fun insert_each :: "('s, 'a, 'z) mutseq_cls_scheme \<Rightarrow> 's \<Rightarrow> int \<Rightarrow> 'a list \<Rightarrow> 's outcome" where
  "insert_each cls self i [] = Ok self"
| "insert_each cls self i (v # vs) =
     (case cls_insert cls self i v of
        Raise e self' \<Rightarrow> Raise e self'
      | Ok self' \<Rightarrow> insert_each cls self' (i + 1) vs)"

text \<open>
  \<open>tuple(value)\<close> inside \<open>try ... except TypeError\<close>: a \<open>TypeError\<close> is replaced by the
  helper's own, any other exception passes.
\<close>

definition tuple_value :: "('s, 'a, 'z) seq_cls_scheme \<Rightarrow> 's \<Rightarrow> 'a source \<Rightarrow> string \<Rightarrow> pyerror + 'a list" where
  "tuple_value cls self v msg =
     (case v of
        NotIterable \<Rightarrow> Inl (TypeError msg)
      | Iterable vs \<Rightarrow> Inr vs
      | Self \<Rightarrow>
          (case tuple_self cls self of
             Inl (TypeError m) \<Rightarrow> Inl (TypeError msg)
           | Inl e \<Rightarrow> Inl e
           | Inr vs \<Rightarrow> Inr vs))"

definition size_mismatch :: "nat \<Rightarrow> nat \<Rightarrow> pyerror" where
  "size_mismatch nvalues nindices =
     ValueError (''attempt to assign '' @ str_nat nvalues @ '' values ''
                 @ ''to an extended slice of size '' @ str_nat nindices)"

definition seq_setitem_slice :: "('s, 'a, 'z) mutseq_cls_scheme \<Rightarrow> 's \<Rightarrow> pyslice \<Rightarrow> 'a source \<Rightarrow> 's outcome" where
  "seq_setitem_slice cls self index v =
     (case deslice cls self index of
        Inl e \<Rightarrow> Raise e self
      | Inr indices \<Rightarrow>
          if step index \<noteq> None \<and> step index \<noteq> Some 1 then
            (case tuple_value cls self v ''must assign iterable to extended slice'' of
               Inl e \<Rightarrow> Raise e self
             | Inr values \<Rightarrow>
                 if length values \<noteq> range_len indices
                 then Raise (size_mismatch (length values) (range_len indices)) self
                 else setitem_each cls self (zip (range_list indices) values))
          else
            (case (case v of
                     Self \<Rightarrow> tuple_value cls self v ''must assign iterable to slice''
                   | Iterable vs \<Rightarrow> Inr vs
                   | NotIterable \<Rightarrow> Inl (TypeError ''must assign iterable to slice'')) of
               Inl e \<Rightarrow> Raise e self
             | Inr values \<Rightarrow>
                 (case delitem_each cls self (rev (range_list indices)) of
                    Raise e self' \<Rightarrow> Raise e self'
                  | Ok self' \<Rightarrow> insert_each cls self' (range_start indices) values)))"

definition seq_setitem :: "('s, 'a, 'z) mutseq_cls_scheme \<Rightarrow> 's \<Rightarrow> 'a assignment \<Rightarrow> 's outcome" where
  "seq_setitem cls self asg =
     (case asg of
        SetSlice sl v \<Rightarrow> seq_setitem_slice cls self sl v
      | SetIndex i v \<Rightarrow> seq_setitem_index cls self i v)"

text \<open>
  What the helper asks of the decorated class (its methods "can only handle positive
  integer indices within range"): seen through \<open>contents\<close>, the elements of an object in
  order, \<open>__len__\<close> is their number, \<open>__getitem__\<close> reads the element at an index in
  \<open>[0, len)\<close> and the constructor builds an object holding the given elements.
\<close>

definition seq_contract :: "('s, 'a, 'z) seq_cls_scheme \<Rightarrow> ('s \<Rightarrow> 'a list) \<Rightarrow> bool" where
  "seq_contract cls contents \<longleftrightarrow>
     (\<forall>s. cls_len cls s = length (contents s)) \<and>
     (\<forall>s i. 0 \<le> i \<and> i < int (length (contents s)) \<longrightarrow>
        cls_getitem cls s i = Inr (contents s ! nat i)) \<and>
     (\<forall>xs. \<exists>s. cls_new cls xs = Inr s \<and> contents s = xs)"

text \<open>
  A mutable class also deletes the element at an index in \<open>[0, len)\<close>, inserts before an
  index in \<open>[0, len]\<close> and replaces the element at an index in \<open>[0, len)\<close>.
\<close>

definition mutseq_contract :: "('s, 'a, 'z) mutseq_cls_scheme \<Rightarrow> ('s \<Rightarrow> 'a list) \<Rightarrow> bool" where
  "mutseq_contract cls contents \<longleftrightarrow>
     seq_contract cls contents \<and>
     (\<forall>s i. 0 \<le> i \<and> i < int (length (contents s)) \<longrightarrow>
        (\<exists>s'. cls_delitem cls s i = Ok s' \<and>
              contents s' = take (nat i) (contents s) @ drop (Suc (nat i)) (contents s))) \<and>
     (\<forall>s i v. 0 \<le> i \<and> i \<le> int (length (contents s)) \<longrightarrow>
        (\<exists>s'. cls_insert cls s i v = Ok s' \<and>
              contents s' = take (nat i) (contents s) @ v # drop (nat i) (contents s))) \<and>
     (\<forall>s i v. 0 \<le> i \<and> i < int (length (contents s)) \<longrightarrow>
        (\<exists>s'. cls_setitem cls s i v = Ok s' \<and> contents s' = (contents s)[nat i := v]))"

text \<open>
  The class \<open>List\<close> of the test suite: it keeps a Python list and asserts that every index
  it is given is in range.
\<close>

definition List_cls :: "('a list, 'a) mutseq_cls" where
  "List_cls =
     \<lparr> cls_len = length,
       cls_getitem = (\<lambda>s i.
         if 0 \<le> i \<and> i < int (length s) then Inr (s ! nat i) else Inl AssertionError),
       cls_new = (\<lambda>xs. Inr xs),
       cls_delitem = (\<lambda>s i.
         if 0 \<le> i \<and> i < int (length s) then Ok (take (nat i) s @ drop (Suc (nat i)) s)
         else Raise AssertionError s),
       cls_insert = (\<lambda>s i v.
         if 0 \<le> i \<and> i \<le> int (length s) then Ok (take (nat i) s @ v # drop (nat i) s)
         else Raise AssertionError s),
       cls_setitem = (\<lambda>s i v.
         if 0 \<le> i \<and> i < int (length s) then Ok (s[nat i := v])
         else Raise AssertionError s) \<rparr>"

section \<open>The mapping helper\<close>

text \<open>
  The decorated class brings its own \<open>__getitem__\<close>, which raises \<open>KeyError\<close> on a
  missing key, and may define \<open>__missing__\<close>. Each wrapper reports, with its result, the
  calls it made to these two methods, in order.
\<close>

record ('m, 'k, 'v) mapping_cls =
  cls_lookup :: "'m \<Rightarrow> 'k \<Rightarrow> pyerror + 'v"
  cls_missing :: "('m \<Rightarrow> 'k \<Rightarrow> pyerror + 'v) option"

datatype 'k call = Lookup 'k | Missing 'k

fun is_KeyError :: "pyerror \<Rightarrow> bool" where
  "is_KeyError (KeyError m) = True"
| "is_KeyError e = False"

definition map_getitem :: "('m, 'k, 'v) mapping_cls \<Rightarrow> 'm \<Rightarrow> 'k \<Rightarrow> 'k call list \<times> (pyerror + 'v)" where
  "map_getitem cls self key =
     (case cls_lookup cls self key of
        Inr v \<Rightarrow> ([Lookup key], Inr v)
      | Inl e \<Rightarrow>
          if is_KeyError e then
            (case cls_missing cls of
               None \<Rightarrow> ([Lookup key], Inl e)
             | Some missing \<Rightarrow> ([Lookup key, Missing key], missing self key))
          else ([Lookup key], Inl e))"

definition map_contains :: "('m, 'k, 'v) mapping_cls \<Rightarrow> 'm \<Rightarrow> 'k \<Rightarrow> 'k call list \<times> (pyerror + bool)" where
  "map_contains cls self key =
     (case cls_lookup cls self key of
        Inl e \<Rightarrow> if is_KeyError e then ([Lookup key], Inr False) else ([Lookup key], Inl e)
      | Inr v \<Rightarrow> ([Lookup key], Inr True))"

definition map_get :: "('m, 'k, 'v) mapping_cls \<Rightarrow> 'm \<Rightarrow> 'k \<Rightarrow> 'v \<Rightarrow> 'k call list \<times> (pyerror + 'v)" where
  "map_get cls self key dflt =
     (case cls_lookup cls self key of
        Inr v \<Rightarrow> ([Lookup key], Inr v)
      | Inl e \<Rightarrow> if is_KeyError e then ([Lookup key], Inr dflt) else ([Lookup key], Inl e))"

text \<open>
  The class \<open>FrozenKeyDict\<close> of the test suite: it keeps a dict (here from strings to
  strings) and its \<open>__missing__\<close> returns the key.
\<close>

definition FrozenKeyDict_cls :: "(string \<rightharpoonup> string, string, string) mapping_cls" where
  "FrozenKeyDict_cls =
     \<lparr> cls_lookup = (\<lambda>d key. case d key of None \<Rightarrow> Inl (KeyError key) | Some v \<Rightarrow> Inr v),
       cls_missing = Some (\<lambda>d key. Inr key) \<rparr>"

section \<open>Decorating a class\<close>

text \<open>
  What the decorators themselves look at: the name of the class, whether it is a subclass
  of the three abstract base classes, and where each of its attributes comes from (from an
  abstract base class or from the class itself). A method the decorator replaces becomes
  \<open>Wrapper\<close>.
\<close>

datatype origin = FromABC | Own | Wrapper

record pyclass =
  cls_name :: string
  is_Sequence :: bool
  is_MutableSequence :: bool
  is_Mapping :: bool
  attrs :: "string \<rightharpoonup> origin"

definition getattr :: "pyclass \<Rightarrow> string \<Rightarrow> pyerror + origin" where
  "getattr cls a =
     (case attrs cls a of
        None \<Rightarrow> Inl (AttributeError (''type object '' @ [CHR 0x27] @ cls_name cls @ [CHR 0x27]
                                   @ '' has no attribute '' @ [CHR 0x27] @ a @ [CHR 0x27]))
      | Some f \<Rightarrow> Inr f)"

definition setattr :: "pyclass \<Rightarrow> string \<Rightarrow> origin \<Rightarrow> pyclass" where
  "setattr cls a f = cls\<lparr>attrs := (attrs cls)(a \<mapsto> f)\<rparr>"

definition mapping_helper :: "pyclass \<Rightarrow> pyerror + pyclass" where
  "mapping_helper cls =
     (if \<not> is_Mapping cls then Inl (TypeError ''can only help mappings'')
      else
        (case getattr cls ''__getitem__'' of
           Inl e \<Rightarrow> Inl e
         | Inr getitem0 \<Rightarrow>
             (let cls1 = setattr cls ''__getitem__'' Wrapper in
              (case getattr cls1 ''__contains__'' of
                 Inl e \<Rightarrow> Inl e
               | Inr contains0 \<Rightarrow>
                   (let cls2 = (if contains0 = FromABC
                                then setattr cls1 ''__contains__'' Wrapper else cls1) in
                    (case getattr cls2 ''get'' of
                       Inl e \<Rightarrow> Inl e
                     | Inr get0 \<Rightarrow>
                         Inr (if get0 = FromABC then setattr cls2 ''get'' Wrapper
                              else cls2)))))))"

definition sequence_helper :: "pyclass \<Rightarrow> pyerror + pyclass" where
  "sequence_helper cls =
     (if \<not> is_Sequence cls then Inl (TypeError ''can only help sequences'')
      else
        (case getattr cls ''__getitem__'' of
           Inl e \<Rightarrow> Inl e
         | Inr getitem0 \<Rightarrow>
             (let cls1 = setattr cls ''__getitem__'' Wrapper in
              if \<not> is_MutableSequence cls1 then Inr cls1
              else
                (case getattr cls1 ''__delitem__'' of
                   Inl e \<Rightarrow> Inl e
                 | Inr delitem0 \<Rightarrow>
                     (let cls2 = setattr cls1 ''__delitem__'' Wrapper in
                      (case getattr cls2 ''insert'' of
                         Inl e \<Rightarrow> Inl e
                       | Inr insert0 \<Rightarrow>
                           (let cls3 = setattr cls2 ''insert'' Wrapper in
                            (case getattr cls3 ''__setitem__'' of
                               Inl e \<Rightarrow> Inl e
                             | Inr setitem0 \<Rightarrow>
                                 Inr (setattr cls3 ''__setitem__'' Wrapper)))))))))"

text \<open>\<open>name in message\<close> on strings.\<close>

fun starts_with :: "string \<Rightarrow> string \<Rightarrow> bool" where
  "starts_with s [] = True"
| "starts_with [] (c # p) = False"
| "starts_with (d # s) (c # p) = (d = c \<and> starts_with s p)"

fun occurs_in :: "string \<Rightarrow> string \<Rightarrow> bool" where
  "occurs_in p [] = (p = [])"
| "occurs_in p (d # s) = (starts_with (d # s) p \<or> occurs_in p s)"

fun message :: "pyerror \<Rightarrow> string" where
  "message (TypeError m) = m"
| "message (IndexError m) = m"
| "message (ValueError m) = m"
| "message (KeyError m) = m"
| "message (AttributeError m) = m"
| "message AssertionError = []"
| "message (OtherError k m) = m"

section \<open>Slices with step zero\<close>

lemma deslice_step_zero:
  "step sl = Some 0 \<Longrightarrow> deslice cls s sl = Inl (ValueError ''slice step cannot be zero'')"
  by (simp add: deslice_def slice_indices_def)

text \<open>
  Claim C10. For a slice whose step is 0, the wrappers \<open>__getitem__\<close>, \<open>__delitem__\<close> and
  \<open>__setitem__\<close> raise the \<open>ValueError\<close> of \<open>slice.indices\<close>. This holds whatever the
  methods of the decorated class do (also for methods that would raise or change the object
  on every call), so none of them has been called, and the object is the one the call
  started with. Only the length has been read, to normalise the slice.
\<close>

theorem step_zero_raises_before_any_primitive:
  assumes "step sl = Some 0"
  shows "seq_getitem cls0 s0 (Slice sl) = Inl (ValueError ''slice step cannot be zero'') \<and>
         seq_delitem cls s (Slice sl) = Raise (ValueError ''slice step cannot be zero'') s \<and>
         seq_setitem cls s (SetSlice sl v) = Raise (ValueError ''slice step cannot be zero'') s"
  using assms
  by (simp add: seq_getitem_def seq_getitem_slice_def seq_delitem_def seq_setitem_def
      seq_setitem_slice_def deslice_step_zero)

theorem step_zero_raises_before_any_primitive_witness:
  "step \<lparr>start = Some 0, stop = Some 10, step = Some 0\<rparr> = Some 0 \<and>
   seq_getitem List_cls [10, 11 :: int] (Slice \<lparr>start = Some 0, stop = Some 10, step = Some 0\<rparr>)
     = Inl (ValueError ''slice step cannot be zero'') \<and>
   seq_delitem List_cls [10, 11 :: int] (Slice \<lparr>start = Some 0, stop = Some 10, step = Some 0\<rparr>)
     = Raise (ValueError ''slice step cannot be zero'') [10, 11] \<and>
   seq_setitem List_cls [10, 11 :: int]
       (SetSlice \<lparr>start = Some 0, stop = Some 10, step = Some 0\<rparr> (Iterable [1, 2, 3]))
     = Raise (ValueError ''slice step cannot be zero'') [10, 11]"
  using step_zero_raises_before_any_primitive
    [of "\<lparr>start = Some 0, stop = Some 10, step = Some 0\<rparr>" List_cls "[10, 11 :: int]"
        List_cls "[10, 11 :: int]" "Iterable [1, 2, 3]"]
  by simp

section \<open>Deleting a slice\<close>

text \<open>
  Claim C1. The wrapper \<open>__delitem__\<close> walks \<open>reversed(deslice(self, index))\<close>. For a
  negative step the range itself descends, so its reversal ascends: on
  \<open>List([0, 1, 2, 3, 4])\<close>, \<open>del a[::-2]\<close> calls the class's \<open>__delitem__\<close> with 0, then 2,
  then 4. The third index is no longer in range (three elements are left), the class's
  assertion fails, and the object is left as \<open>[1, 2, 4]\<close> where a list would hold
  \<open>[1, 3]\<close>.
\<close>

theorem delitem_negative_step_ascending:
  "deslice List_cls [0, 1, 2, 3, 4 :: int] \<lparr>start = None, stop = None, step = Some (- 2)\<rparr>
     = Inr (PyRange 4 (- 1) (- 2)) \<and>
   rev (range_list (PyRange 4 (- 1) (- 2))) = [0, 2, 4] \<and>
   seq_delitem List_cls [0, 1, 2, 3, 4 :: int]
       (Slice \<lparr>start = None, stop = None, step = Some (- 2)\<rparr>)
     = Raise AssertionError [1, 2, 4]"
  by code_simp

section \<open>What the contracts give\<close>

lemma List_cls_seq_contract: "seq_contract List_cls (\<lambda>s. s)"
  by (simp add: seq_contract_def List_cls_def)

lemma List_cls_mutseq_contract: "mutseq_contract List_cls (\<lambda>s. s)"
  by (simp add: mutseq_contract_def List_cls_seq_contract) (simp add: List_cls_def)

lemma contract_len: "seq_contract cls contents \<Longrightarrow> cls_len cls s = length (contents s)"
  by (simp add: seq_contract_def)

lemma contract_getitem:
  "seq_contract cls contents \<Longrightarrow> 0 \<le> i \<Longrightarrow> i < int (length (contents s)) \<Longrightarrow>
   cls_getitem cls s i = Inr (contents s ! nat i)"
  by (simp add: seq_contract_def)

lemma posintify_PyInt:
  "posintify cls s (PyInt i) =
     (let n = int (cls_len cls s); j = (if i < 0 then i + n else i)
      in if j < 0 \<or> n \<le> j then Inl (IndexError ''index out of range'') else Inr j)"
  by (simp add: posintify_def u_posintify_def Let_def)

lemma contract_insert:
  "mutseq_contract cls contents \<Longrightarrow> 0 \<le> i \<Longrightarrow> i \<le> int (length (contents s)) \<Longrightarrow>
   \<exists>s'. cls_insert cls s i v = Ok s' \<and>
     contents s' = take (nat i) (contents s) @ v # drop (nat i) (contents s)"
  by (simp add: mutseq_contract_def)

lemma mutseq_contract_seq: "mutseq_contract cls contents \<Longrightarrow> seq_contract cls contents"
  by (simp add: mutseq_contract_def)

lemma contract_new:
  "seq_contract cls contents \<Longrightarrow> \<exists>s. cls_new cls xs = Inr s \<and> contents s = xs"
  by (simp add: seq_contract_def)

lemma seq_getitem_index_in_range:
  assumes "seq_contract cls contents" and "0 \<le> i" and "i < int (length (contents s))"
  shows "seq_getitem_index cls s (PyInt i) = Inr (contents s ! nat i)"
  using assms
  by (simp add: seq_getitem_index_def posintify_PyInt contract_len contract_getitem)

lemma contract_delitem:
  "mutseq_contract cls contents \<Longrightarrow> 0 \<le> i \<Longrightarrow> i < int (length (contents s)) \<Longrightarrow>
   \<exists>s'. cls_delitem cls s i = Ok s' \<and>
     contents s' = take (nat i) (contents s) @ drop (Suc (nat i)) (contents s)"
  by (simp add: mutseq_contract_def)

lemma contract_setitem:
  "mutseq_contract cls contents \<Longrightarrow> 0 \<le> i \<Longrightarrow> i < int (length (contents s)) \<Longrightarrow>
   \<exists>s'. cls_setitem cls s i v = Ok s' \<and> contents s' = (contents s)[nat i := v]"
  by (simp add: mutseq_contract_def)

lemma seq_getitem_index_at_len:
  assumes "seq_contract cls contents"
  shows "seq_getitem_index cls s (PyInt (int (length (contents s))))
           = Inl (IndexError ''index out of range'')"
  using assms by (simp add: seq_getitem_index_def posintify_PyInt contract_len)

lemma iter_from:
  assumes "seq_contract cls contents"
  shows "m \<le> length (contents s) \<Longrightarrow>
         iter_until_IndexError (\<lambda>i. seq_getitem_index cls s (PyInt i))
           (map int [m..<Suc (length (contents s))]) = Inr (drop m (contents s))"
proof (induction "length (contents s) - m" arbitrary: m)
  case 0
  then have m: "m = length (contents s)" by simp
  have "[m..<Suc (length (contents s))] = [m]" using m by simp
  then show ?case using seq_getitem_index_at_len [OF assms, of s] m by (simp del: upt_Suc)
next
  case (Suc d)
  then have lt: "m < length (contents s)" by simp
  have upt: "[m..<Suc (length (contents s))] = m # [Suc m..<Suc (length (contents s))]"
    using lt by (simp add: upt_conv_Cons)
  have hd: "seq_getitem_index cls s (PyInt (int m)) = Inr (contents s ! m)"
    using seq_getitem_index_in_range [OF assms, of "int m" s] lt by simp
  have tl: "iter_until_IndexError (\<lambda>i. seq_getitem_index cls s (PyInt i))
              (map int [Suc m..<Suc (length (contents s))]) = Inr (drop (Suc m) (contents s))"
    using Suc.hyps(1) [of "Suc m"] Suc.hyps(2) lt by simp
  show ?case using lt by (simp add: upt hd tl Cons_nth_drop_Suc del: upt_Suc)
qed

lemma tuple_self_contents:
  assumes "seq_contract cls contents"
  shows "tuple_self cls s = Inr (contents s)"
  using iter_from [OF assms, of 0 s] contract_len [OF assms, of s]
  by (simp add: tuple_self_def)

lemma tuple_value_items:
  assumes "seq_contract cls contents"
    and "v = Iterable vs \<or> (v = Self \<and> vs = contents s)"
  shows "tuple_value cls s v msg = Inr vs"
  using assms(2) tuple_self_contents [OF assms(1), of s]
  by (auto simp add: tuple_value_def)

lemma seq_setitem_index_in_range:
  assumes "mutseq_contract cls contents" and "0 \<le> i" and "i < int (length (contents s))"
  shows "\<exists>s'. seq_setitem_index cls s (PyInt i) v = Ok s' \<and> contents s' = (contents s)[nat i := v]"
  using contract_setitem [OF assms, of v] assms
  by (simp add: seq_setitem_index_def posintify_PyInt
      contract_len [OF mutseq_contract_seq [OF assms(1)]])

lemma setitem_each_in_range:
  assumes "mutseq_contract cls contents"
  shows "\<forall>iv \<in> set ivs. 0 \<le> fst iv \<and> fst iv < int (length (contents s)) \<Longrightarrow>
         \<exists>s'. setitem_each cls s ivs = Ok s' \<and>
           contents s' = fold (\<lambda>iv xs. xs[nat (fst iv) := snd iv]) ivs (contents s)"
proof (induction ivs arbitrary: s)
  case Nil
  then show ?case by simp
next
  case (Cons iv ivs)
  obtain i v where iv: "iv = (i, v)" by (cases iv)
  have rng: "0 \<le> i" "i < int (length (contents s))" using Cons.prems iv by auto
  obtain s1 where s1: "seq_setitem_index cls s (PyInt i) v = Ok s1"
    and c1: "contents s1 = (contents s)[nat i := v]"
    using seq_setitem_index_in_range [OF assms rng] by blast
  have "\<forall>iv \<in> set ivs. 0 \<le> fst iv \<and> fst iv < int (length (contents s1))"
    using Cons.prems c1 by simp
  then obtain s' where "setitem_each cls s1 ivs = Ok s'"
    and "contents s' = fold (\<lambda>iv xs. xs[nat (fst iv) := snd iv]) ivs (contents s1)"
    using Cons.IH [of s1] by blast
  then show ?case using iv s1 c1 by simp
qed

lemma length_fold_update:
  "length (fold (\<lambda>iv xs. xs[nat (fst iv) := snd iv]) ivs xs) = length xs"
  by (induction ivs arbitrary: xs) simp_all

lemma fold_update_other:
  "j \<notin> (\<lambda>iv. nat (fst iv)) ` set ivs \<Longrightarrow>
   fold (\<lambda>iv xs. xs[nat (fst iv) := snd iv]) ivs xs ! j = xs ! j"
  by (induction ivs arbitrary: xs) simp_all

lemma fold_update_hit:
  "distinct (map (\<lambda>iv. nat (fst iv)) ivs) \<Longrightarrow>
   \<forall>iv \<in> set ivs. nat (fst iv) < length xs \<Longrightarrow> k < length ivs \<Longrightarrow>
   fold (\<lambda>iv xs. xs[nat (fst iv) := snd iv]) ivs xs ! nat (fst (ivs ! k)) = snd (ivs ! k)"
proof (induction ivs arbitrary: xs k)
  case Nil
  then show ?case by simp
next
  case (Cons iv ivs)
  show ?case
  proof (cases k)
    case 0
    have "nat (fst iv) \<notin> (\<lambda>iv. nat (fst iv)) ` set ivs" using Cons.prems(1) by auto
    then have "fold (\<lambda>iv xs. xs[nat (fst iv) := snd iv]) ivs (xs[nat (fst iv) := snd iv]) ! nat (fst iv)
                 = xs[nat (fst iv) := snd iv] ! nat (fst iv)"
      by (rule fold_update_other)
    then show ?thesis using 0 Cons.prems(2) by simp
  next
    case (Suc k')
    then show ?thesis using Cons.IH [of "xs[nat (fst iv) := snd iv]" k'] Cons.prems by simp
  qed
qed

section \<open>Ranges of slices\<close>

lemma div_mult_le_int: "0 < (c::int) \<Longrightarrow> (x div c) * c \<le> x"
proof -
  assume c: "0 < c"
  have "c * (x div c) + x mod c = x" by (rule mult_div_mod_eq)
  moreover have "0 \<le> x mod c" using c by simp
  ultimately have "c * (x div c) \<le> x" by linarith
  then show ?thesis by (simp add: mult.commute)
qed

lemma range_step_bound:
  assumes "0 < (c::int)" and "int k < x div c + 1"
  shows "int k * c \<le> x"
proof -
  have "int k \<le> x div c" using assms(2) by simp
  then have "int k * c \<le> (x div c) * c"
    using assms(1) by (simp add: mult_right_mono)
  then show ?thesis using div_mult_le_int [OF assms(1), of x] by linarith
qed

lemma range_list_nth:
  "k < range_len r \<Longrightarrow> range_list r ! k = range_start r + int k * range_step r"
  by (simp add: range_list_def)

lemma length_range_list: "length (range_list r) = range_len r"
  by (simp add: range_list_def)

lemma range_elem_up:
  assumes "0 < c" and "k < range_len (PyRange a b c)"
  shows "a \<le> a + int k * c \<and> a + int k * c < b"
proof -
  have ab: "a < b" using assms by (simp add: range_len_def split: if_splits)
  then have "int k < (b - a - 1) div c + 1"
    using assms by (simp add: range_len_def)
  then have "int k * c \<le> b - a - 1" using range_step_bound assms(1) by blast
  moreover have "0 \<le> int k * c" using assms(1) by simp
  ultimately show ?thesis by linarith
qed

lemma range_elem_down:
  assumes "c < 0" and "k < range_len (PyRange a b c)"
  shows "b < a + int k * c \<and> a + int k * c \<le> a"
proof -
  have ab: "b < a" using assms by (simp add: range_len_def split: if_splits)
  then have "int k < (a - b - 1) div (- c) + 1"
    using assms by (simp add: range_len_def)
  then have "int k * (- c) \<le> a - b - 1" using range_step_bound [of "- c" k "a - b - 1"] assms(1) by simp
  moreover have "0 \<le> int k * (- c)" using assms(1) by (simp add: mult_nonneg_nonpos)
  ultimately show ?thesis by (simp add: algebra_simps)
qed

lemma slice_indices_bounds:
  assumes "slice_indices sl n = Inr (a, b, c)" and "0 \<le> n"
  shows "c \<noteq> 0 \<and> (0 < c \<longrightarrow> 0 \<le> a \<and> a \<le> n \<and> 0 \<le> b \<and> b \<le> n) \<and>
         (c < 0 \<longrightarrow> - 1 \<le> a \<and> a \<le> n - 1 \<and> - 1 \<le> b \<and> b \<le> n - 1)"
  using assms
  by (auto simp add: slice_indices_def Let_def split: if_splits option.splits)

lemma slice_indices_defined:
  "step sl \<noteq> Some 0 \<Longrightarrow> \<exists>a b c. slice_indices sl n = Inr (a, b, c)"
  by (auto simp add: slice_indices_def Let_def split: option.splits)

lemma deslice_defined:
  assumes "step sl \<noteq> Some 0"
  shows "\<exists>a b c. deslice cls s sl = Inr (PyRange a b c) \<and>
           slice_indices sl (int (cls_len cls s)) = Inr (a, b, c)"
  using slice_indices_defined [OF assms, of "int (cls_len cls s)"]
  by (auto simp add: deslice_def)

lemma deslice_in_range:
  assumes "deslice cls s sl = Inr r" and "x \<in> set (range_list r)"
  shows "0 \<le> x \<and> x < int (cls_len cls s)"
proof -
  obtain a b c where sl: "slice_indices sl (int (cls_len cls s)) = Inr (a, b, c)"
    and r: "r = PyRange a b c"
    using assms(1) by (auto simp add: deslice_def split: sum.splits)
  obtain k where k: "k < range_len r" and x: "x = a + int k * c"
    using assms(2) r by (auto simp add: range_list_def)
  have bnd: "c \<noteq> 0 \<and> (0 < c \<longrightarrow> 0 \<le> a \<and> a \<le> int (cls_len cls s) \<and> 0 \<le> b \<and> b \<le> int (cls_len cls s)) \<and>
         (c < 0 \<longrightarrow> - 1 \<le> a \<and> a \<le> int (cls_len cls s) - 1 \<and> - 1 \<le> b \<and> b \<le> int (cls_len cls s) - 1)"
    using slice_indices_bounds [OF sl] by simp
  show ?thesis
  proof (cases "0 < c")
    case True
    then show ?thesis using range_elem_up [OF True, of k a b] k r x bnd by auto
  next
    case False
    then have neg: "c < 0" using bnd by auto
    then show ?thesis using range_elem_down [OF neg, of k a b] k r x bnd by auto
  qed
qed

lemma distinct_range_list:
  assumes "range_step r \<noteq> 0"
  shows "distinct (range_list r)"
proof -
  have "inj_on (\<lambda>k. range_start r + int k * range_step r) (set [0..<range_len r])"
    using assms by (auto simp add: inj_on_def)
  then show ?thesis by (simp add: range_list_def distinct_map)
qed

lemma deslice_step_nonzero:
  "deslice cls s sl = Inr r \<Longrightarrow> range_step r \<noteq> 0"
  by (auto simp add: deslice_def slice_indices_def Let_def split: if_splits sum.splits)

section \<open>Reading one element\<close>

text \<open>
  Claim C3. On a sequence of length \<open>n\<close> that keeps the contract, the wrapper
  \<open>__getitem__\<close> with an integer \<open>i\<close>: for \<open>0 \<le> i < n\<close> it returns what the class's own
  \<open>__getitem__\<close> returns at \<open>i\<close>, the \<open>i\<close>-th element; for \<open>-n \<le> i < 0\<close> it returns what
  it returns for \<open>n + i\<close>; it raises \<open>IndexError\<close> exactly when \<open>i < -n\<close> or \<open>i \<ge> n\<close>.
\<close>

theorem getitem_integer:
  assumes "seq_contract cls contents" and "n = int (length (contents s))"
  shows "(0 \<le> i \<and> i < n \<longrightarrow>
            seq_getitem cls s (Index (PyInt i)) = map_sum id Element (cls_getitem cls s i) \<and>
            seq_getitem cls s (Index (PyInt i)) = Inr (Element (contents s ! nat i))) \<and>
         (- n \<le> i \<and> i < 0 \<longrightarrow>
            seq_getitem cls s (Index (PyInt i)) = seq_getitem cls s (Index (PyInt (n + i)))) \<and>
         ((\<exists>m. seq_getitem cls s (Index (PyInt i)) = Inl (IndexError m)) \<longleftrightarrow> i < - n \<or> n \<le> i) \<and>
         (i < - n \<or> n \<le> i \<longrightarrow>
            seq_getitem cls s (Index (PyInt i)) = Inl (IndexError ''index out of range''))"
proof -
  have len: "int (cls_len cls s) = n"
    using assms by (simp add: contract_len)
  have get: "\<And>j. 0 \<le> j \<Longrightarrow> j < n \<Longrightarrow> cls_getitem cls s j = Inr (contents s ! nat j)"
    using assms by (simp add: contract_getitem)
  have inr: "0 \<le> i \<and> i < n \<longrightarrow>
            seq_getitem cls s (Index (PyInt i)) = map_sum id Element (cls_getitem cls s i) \<and>
            seq_getitem cls s (Index (PyInt i)) = Inr (Element (contents s ! nat i))"
    by (simp add: seq_getitem_def seq_getitem_index_def posintify_PyInt len get)
  have neg: "- n \<le> i \<and> i < 0 \<longrightarrow>
            seq_getitem cls s (Index (PyInt i)) = seq_getitem cls s (Index (PyInt (n + i)))"
    by (auto simp add: seq_getitem_def seq_getitem_index_def posintify_PyInt len Let_def add.commute)
  have out: "i < - n \<or> n \<le> i \<longrightarrow>
            seq_getitem cls s (Index (PyInt i)) = Inl (IndexError ''index out of range'')"
    by (auto simp add: seq_getitem_def seq_getitem_index_def posintify_PyInt len Let_def)
  have ok: "\<not> (i < - n \<or> n \<le> i) \<longrightarrow> (\<exists>v. seq_getitem cls s (Index (PyInt i)) = Inr v)"
  proof
    assume a: "\<not> (i < - n \<or> n \<le> i)"
    show "\<exists>v. seq_getitem cls s (Index (PyInt i)) = Inr v"
    proof (cases "i < 0")
      case True
      then have "0 \<le> i + n" "i + n < n" using a by auto
      then show ?thesis
        using True by (simp add: seq_getitem_def seq_getitem_index_def posintify_PyInt len get)
    next
      case False
      then have "0 \<le> i" "i < n" using a by auto
      then show ?thesis
        by (simp add: seq_getitem_def seq_getitem_index_def posintify_PyInt len get)
    qed
  qed
  have iff: "(\<exists>m. seq_getitem cls s (Index (PyInt i)) = Inl (IndexError m)) \<longleftrightarrow> i < - n \<or> n \<le> i"
    using out ok by (cases "i < - n \<or> n \<le> i") auto
  show ?thesis using inr neg iff out by blast
qed

theorem getitem_integer_witness:
  "seq_contract List_cls (\<lambda>s. s) \<and> (2 :: int) = int (length [10, 11 :: int]) \<and>
   seq_getitem List_cls [10, 11 :: int] (Index (PyInt 1)) = Inr (Element 11) \<and>
   seq_getitem List_cls [10, 11 :: int] (Index (PyInt (- 1)))
     = seq_getitem List_cls [10, 11] (Index (PyInt 1)) \<and>
   seq_getitem List_cls [10, 11 :: int] (Index (PyInt 3))
     = Inl (IndexError ''index out of range'') \<and>
   seq_getitem List_cls [10, 11 :: int] (Index (PyInt (- 3)))
     = Inl (IndexError ''index out of range'')"
  using getitem_integer [OF List_cls_seq_contract, of 2 "[10, 11 :: int]" 1]
    getitem_integer [OF List_cls_seq_contract, of 2 "[10, 11 :: int]" "- 1"]
    getitem_integer [OF List_cls_seq_contract, of 2 "[10, 11 :: int]" 3]
    getitem_integer [OF List_cls_seq_contract, of 2 "[10, 11 :: int]" "- 3"]
    List_cls_seq_contract
  by (simp add: List_cls_def)

section \<open>Reading a slice\<close>

lemma collect_in_range:
  assumes "seq_contract cls contents"
    and "\<forall>x \<in> set xs. 0 \<le> x \<and> x < int (length (contents s))"
  shows "collect (cls_getitem cls s) xs = Inr (map (\<lambda>i. contents s ! nat i) xs)"
  using assms(2)
proof (induction xs)
  case Nil
  then show ?case by simp
next
  case (Cons x xs)
  then show ?case using contract_getitem [OF assms(1), of x s] by simp
qed

lemma slice_read_example:
  "seq_getitem List_cls [0, 1, 2, 3, 4 :: int]
     (Slice \<lparr>start = Some 3, stop = None, step = Some (- 2)\<rparr>) = Inr (Container [3, 1])"
  by code_simp

text \<open>
  Claim C4. On a sequence that keeps the contract, the wrapper \<open>__getitem__\<close> with a
  slice whose step is not 0 (start, stop and step may be absent, negative or out of range)
  returns a new object built by the constructor of the same class; its length is the
  length of the range \<open>r\<close> that \<open>slice.indices\<close> gives for the current length, and its
  \<open>k\<close>-th element is what the wrapper returns for the integer index \<open>r[k]\<close>.
\<close>

theorem slice_read_elements:
  assumes "seq_contract cls contents" and "step sl \<noteq> Some 0"
  shows "\<exists>r s'. deslice cls s sl = Inr r \<and>
           seq_getitem cls s (Slice sl) = Inr (Container s') \<and>
           length (contents s') = range_len r \<and>
           (\<forall>k < range_len r.
              seq_getitem cls s (Index (PyInt (range_list r ! k)))
                = Inr (Element (contents s' ! k)))"
proof -
  obtain a b c where r: "deslice cls s sl = Inr (PyRange a b c)"
    using deslice_defined [OF assms(2), of cls s] by blast
  let ?r = "PyRange a b c"
  have inr: "\<forall>x \<in> set (range_list ?r). 0 \<le> x \<and> x < int (length (contents s))"
    using deslice_in_range [OF r] contract_len [OF assms(1), of s] by simp
  have coll: "collect (cls_getitem cls s) (range_list ?r)
                = Inr (map (\<lambda>i. contents s ! nat i) (range_list ?r))"
    using collect_in_range [OF assms(1) inr] .
  obtain s' where new: "cls_new cls (map (\<lambda>i. contents s ! nat i) (range_list ?r)) = Inr s'"
    and cont: "contents s' = map (\<lambda>i. contents s ! nat i) (range_list ?r)"
    using contract_new [OF assms(1)] by blast
  have res: "seq_getitem cls s (Slice sl) = Inr (Container s')"
    by (simp add: seq_getitem_def seq_getitem_slice_def r coll new)
  have len: "length (contents s') = range_len ?r"
    by (simp add: cont length_range_list)
  have elems: "\<forall>k < range_len ?r.
      seq_getitem cls s (Index (PyInt (range_list ?r ! k))) = Inr (Element (contents s' ! k))"
  proof (intro allI impI)
    fix k assume k: "k < range_len ?r"
    then have mem: "range_list ?r ! k \<in> set (range_list ?r)"
      by (simp add: length_range_list)
    then have "0 \<le> range_list ?r ! k \<and> range_list ?r ! k < int (length (contents s))"
      using inr by blast
    then have "seq_getitem_index cls s (PyInt (range_list ?r ! k))
                 = Inr (contents s ! nat (range_list ?r ! k))"
      using seq_getitem_index_in_range [OF assms(1)] by blast
    moreover have "contents s' ! k = contents s ! nat (range_list ?r ! k)"
      using k by (simp add: cont length_range_list)
    ultimately show "seq_getitem cls s (Index (PyInt (range_list ?r ! k)))
                       = Inr (Element (contents s' ! k))"
      by (simp add: seq_getitem_def)
  qed
  show ?thesis using r res len elems by blast
qed

theorem slice_read_elements_witness:
  "seq_contract List_cls (\<lambda>s. s) \<and>
   step \<lparr>start = Some 3, stop = None, step = Some (- 2)\<rparr> \<noteq> Some 0 \<and>
   seq_getitem List_cls [0, 1, 2, 3, 4 :: int]
      (Slice \<lparr>start = Some 3, stop = None, step = Some (- 2)\<rparr>) = Inr (Container [3, 1]) \<and>
   (\<exists>r s'. deslice List_cls [0, 1, 2, 3, 4 :: int]
              \<lparr>start = Some 3, stop = None, step = Some (- 2)\<rparr> = Inr r \<and>
       seq_getitem List_cls [0, 1, 2, 3, 4 :: int]
          (Slice \<lparr>start = Some 3, stop = None, step = Some (- 2)\<rparr>) = Inr (Container s') \<and>
       length s' = range_len r \<and>
       (\<forall>k < range_len r.
          seq_getitem List_cls [0, 1, 2, 3, 4 :: int] (Index (PyInt (range_list r ! k)))
            = Inr (Element (s' ! k))))"
  using slice_read_elements [OF List_cls_seq_contract,
      of "\<lparr>start = Some 3, stop = None, step = Some (- 2)\<rparr>" "[0, 1, 2, 3, 4 :: int]"]
    List_cls_seq_contract slice_read_example
  by simp

section \<open>Assigning to an extended slice\<close>

lemma fst_in_set_zip: "iv \<in> set (zip xs ys) \<Longrightarrow> fst iv \<in> set xs"
  by (cases iv) (auto dest: set_zip_leftD)

lemma extended_assignment_examples:
  "seq_setitem List_cls [0, 1, 2, 3, 4 :: int]
       (SetSlice \<lparr>start = None, stop = None, step = Some 2\<rparr> (Iterable [7, 8]))
     = Raise (ValueError ''attempt to assign 2 values to an extended slice of size 3'')
         [0, 1, 2, 3, 4] \<and>
   seq_setitem List_cls [0, 1, 2, 3, 4 :: int]
       (SetSlice \<lparr>start = None, stop = None, step = Some 2\<rparr> (Iterable [7, 8, 9]))
     = Ok [7, 1, 8, 3, 9] \<and>
   seq_setitem List_cls [0, 1, 2, 3 :: int]
       (SetSlice \<lparr>start = None, stop = None, step = Some (- 1)\<rparr> Self)
     = Ok [3, 2, 1, 0]"
  by code_simp

text \<open>
  Claim C5. On a mutable sequence that keeps the contract, assigning an iterable (the
  object itself included) to a slice whose step is present, not 1 and not 0: with \<open>r\<close>
  the range of the slice, the wrapper raises the \<open>ValueError\<close> whose message holds the
  number of values and the length of \<open>r\<close> exactly when the two differ, and then the object
  is the one the call started with; when they are equal the call succeeds, the length is
  kept, position \<open>r[k]\<close> holds the \<open>k\<close>-th value for every \<open>k\<close>, and the positions outside
  \<open>r\<close> keep their elements.
\<close>

theorem setitem_extended_slice:
  assumes "mutseq_contract cls contents"
    and "step sl = Some c" and "c \<noteq> 1" and "c \<noteq> 0"
    and "v = Iterable vs \<or> (v = Self \<and> vs = contents s)"
  shows "\<exists>r. deslice cls s sl = Inr r \<and>
           (length vs \<noteq> range_len r \<longrightarrow>
              seq_setitem cls s (SetSlice sl v)
                = Raise (size_mismatch (length vs) (range_len r)) s) \<and>
           (length vs = range_len r \<longrightarrow>
              (\<exists>s'. seq_setitem cls s (SetSlice sl v) = Ok s' \<and>
                 length (contents s') = length (contents s) \<and>
                 (\<forall>k < range_len r. contents s' ! nat (range_list r ! k) = vs ! k) \<and>
                 (\<forall>j < length (contents s).
                    int j \<notin> set (range_list r) \<longrightarrow> contents s' ! j = contents s ! j))) \<and>
           ((\<exists>e s'. seq_setitem cls s (SetSlice sl v) = Raise e s')
              \<longleftrightarrow> length vs \<noteq> range_len r)"
proof -
  have seqc: "seq_contract cls contents" using assms(1) by (rule mutseq_contract_seq)
  have nz: "step sl \<noteq> Some 0" using assms(2,4) by simp
  obtain a b d where r: "deslice cls s sl = Inr (PyRange a b d)"
    using deslice_defined [OF nz, of cls s] by blast
  let ?r = "PyRange a b d"
  have ext: "step sl \<noteq> None \<and> step sl \<noteq> Some 1" using assms(2,3) by simp
  have vals: "tuple_value cls s v ''must assign iterable to extended slice'' = Inr vs"
    using tuple_value_items [OF seqc assms(5)] .
  have unfold: "seq_setitem cls s (SetSlice sl v) =
      (if length vs \<noteq> range_len ?r
       then Raise (size_mismatch (length vs) (range_len ?r)) s
       else setitem_each cls s (zip (range_list ?r) vs))"
    using ext by (simp add: seq_setitem_def seq_setitem_slice_def r vals)
  have mismatch: "length vs \<noteq> range_len ?r \<longrightarrow>
      seq_setitem cls s (SetSlice sl v) = Raise (size_mismatch (length vs) (range_len ?r)) s"
    by (simp add: unfold)
  have match: "length vs = range_len ?r \<longrightarrow>
      (\<exists>s'. seq_setitem cls s (SetSlice sl v) = Ok s' \<and>
         length (contents s') = length (contents s) \<and>
         (\<forall>k < range_len ?r. contents s' ! nat (range_list ?r ! k) = vs ! k) \<and>
         (\<forall>j < length (contents s).
            int j \<notin> set (range_list ?r) \<longrightarrow> contents s' ! j = contents s ! j))"
  proof
    assume eq: "length vs = range_len ?r"
    let ?ivs = "zip (range_list ?r) vs"
    have leneq: "length (range_list ?r) = length vs" using eq by (simp add: length_range_list)
    have fsts: "map fst ?ivs = range_list ?r" using leneq by simp
    have inr: "\<forall>x \<in> set (range_list ?r). 0 \<le> x \<and> x < int (length (contents s))"
      using deslice_in_range [OF r] contract_len [OF seqc, of s] by simp
    have rng: "\<forall>iv \<in> set ?ivs. 0 \<le> fst iv \<and> fst iv < int (length (contents s))"
    proof
      fix iv assume "iv \<in> set ?ivs"
      then have "fst iv \<in> set (range_list ?r)" by (rule fst_in_set_zip)
      then show "0 \<le> fst iv \<and> fst iv < int (length (contents s))" using inr by blast
    qed
    obtain s' where ok: "setitem_each cls s ?ivs = Ok s'"
      and cont: "contents s' = fold (\<lambda>iv xs. xs[nat (fst iv) := snd iv]) ?ivs (contents s)"
      using setitem_each_in_range [OF assms(1) rng] by blast
    have res: "seq_setitem cls s (SetSlice sl v) = Ok s'"
      using eq ok by (simp add: unfold)
    have len: "length (contents s') = length (contents s)"
      by (simp add: cont length_fold_update)
    have dist: "distinct (range_list ?r)"
      using distinct_range_list [of ?r] deslice_step_nonzero [OF r] by simp
    have inj: "inj_on nat (set (range_list ?r))"
    proof (rule inj_onI)
      fix x y assume "x \<in> set (range_list ?r)" and "y \<in> set (range_list ?r)"
        and "nat x = nat y"
      moreover from this inr have "0 \<le> x" and "0 \<le> y" by blast+
      ultimately show "x = y" by simp
    qed
    have dist_nat: "distinct (map (\<lambda>iv. nat (fst iv)) ?ivs)"
    proof -
      have "map (\<lambda>iv. nat (fst iv)) ?ivs = map nat (map fst ?ivs)" by simp
      then show ?thesis using fsts dist inj by (simp add: distinct_map)
    qed
    have valid: "\<forall>iv \<in> set ?ivs. nat (fst iv) < length (contents s)"
      using rng by auto
    have hit: "\<forall>k < range_len ?r. contents s' ! nat (range_list ?r ! k) = vs ! k"
    proof (intro allI impI)
      fix k assume k: "k < range_len ?r"
      then have kl: "k < length ?ivs" using leneq by (simp add: length_range_list)
      have "fold (\<lambda>iv xs. xs[nat (fst iv) := snd iv]) ?ivs (contents s) ! nat (fst (?ivs ! k))
              = snd (?ivs ! k)"
        using fold_update_hit [OF dist_nat valid kl] .
      then show "contents s' ! nat (range_list ?r ! k) = vs ! k"
        using kl by (simp add: cont)
    qed
    have miss: "\<forall>j < length (contents s).
        int j \<notin> set (range_list ?r) \<longrightarrow> contents s' ! j = contents s ! j"
    proof (intro allI impI)
      fix j assume "j < length (contents s)" and nin: "int j \<notin> set (range_list ?r)"
      have "j \<notin> (\<lambda>iv. nat (fst iv)) ` set ?ivs"
      proof
        assume "j \<in> (\<lambda>iv. nat (fst iv)) ` set ?ivs"
        then obtain iv where iv: "iv \<in> set ?ivs" and j: "j = nat (fst iv)" by blast
        have mem: "fst iv \<in> set (range_list ?r)" using iv by (rule fst_in_set_zip)
        then have "0 \<le> fst iv" using inr by blast
        then have "int j = fst iv" using j by simp
        then show False using mem nin by simp
      qed
      then show "contents s' ! j = contents s ! j"
        by (simp add: cont fold_update_other)
    qed
    show "\<exists>s'. seq_setitem cls s (SetSlice sl v) = Ok s' \<and>
         length (contents s') = length (contents s) \<and>
         (\<forall>k < range_len ?r. contents s' ! nat (range_list ?r ! k) = vs ! k) \<and>
         (\<forall>j < length (contents s).
            int j \<notin> set (range_list ?r) \<longrightarrow> contents s' ! j = contents s ! j)"
      using res len hit miss by blast
  qed
  have iff: "(\<exists>e s'. seq_setitem cls s (SetSlice sl v) = Raise e s')
              \<longleftrightarrow> length vs \<noteq> range_len ?r"
  proof (cases "length vs = range_len ?r")
    case True
    then obtain s' where "seq_setitem cls s (SetSlice sl v) = Ok s'" using match by blast
    then show ?thesis using True by simp
  next
    case False
    then show ?thesis using mismatch by simp
  qed
  show ?thesis using r mismatch match iff by blast
qed

theorem setitem_extended_slice_witness:
  "mutseq_contract List_cls (\<lambda>s. s) \<and>
   step \<lparr>start = None, stop = None, step = Some 2\<rparr> = Some 2 \<and> (2 :: int) \<noteq> 1 \<and>
   (2 :: int) \<noteq> 0 \<and>
   seq_setitem List_cls [0, 1, 2, 3, 4 :: int]
       (SetSlice \<lparr>start = None, stop = None, step = Some 2\<rparr> (Iterable [7, 8]))
     = Raise (ValueError ''attempt to assign 2 values to an extended slice of size 3'')
         [0, 1, 2, 3, 4] \<and>
   seq_setitem List_cls [0, 1, 2, 3, 4 :: int]
       (SetSlice \<lparr>start = None, stop = None, step = Some 2\<rparr> (Iterable [7, 8, 9]))
     = Ok [7, 1, 8, 3, 9] \<and>
   (\<exists>r. deslice List_cls [0, 1, 2, 3, 4 :: int] \<lparr>start = None, stop = None, step = Some 2\<rparr>
          = Inr r \<and>
        (length [7, 8 :: int] \<noteq> range_len r \<longrightarrow>
           seq_setitem List_cls [0, 1, 2, 3, 4 :: int]
               (SetSlice \<lparr>start = None, stop = None, step = Some 2\<rparr> (Iterable [7, 8]))
             = Raise (size_mismatch (length [7, 8 :: int]) (range_len r)) [0, 1, 2, 3, 4]) \<and>
        ((\<exists>e s'. seq_setitem List_cls [0, 1, 2, 3, 4 :: int]
               (SetSlice \<lparr>start = None, stop = None, step = Some 2\<rparr> (Iterable [7, 8]))
             = Raise e s') \<longleftrightarrow> length [7, 8 :: int] \<noteq> range_len r)) \<and>
   (\<exists>r. deslice List_cls [0, 1, 2, 3, 4 :: int] \<lparr>start = None, stop = None, step = Some 2\<rparr>
          = Inr r \<and>
        (length [7, 8, 9 :: int] = range_len r \<longrightarrow>
           (\<exists>s'. seq_setitem List_cls [0, 1, 2, 3, 4 :: int]
                   (SetSlice \<lparr>start = None, stop = None, step = Some 2\<rparr> (Iterable [7, 8, 9]))
                 = Ok s' \<and>
               length s' = length [0, 1, 2, 3, 4 :: int] \<and>
               (\<forall>k < range_len r. s' ! nat (range_list r ! k) = [7, 8, 9] ! k) \<and>
               (\<forall>j < length [0, 1, 2, 3, 4 :: int].
                  int j \<notin> set (range_list r) \<longrightarrow> s' ! j = [0, 1, 2, 3, 4] ! j)))) \<and>
   step \<lparr>start = None, stop = None, step = Some (- 1)\<rparr> = Some (- 1) \<and>
   seq_setitem List_cls [0, 1, 2, 3 :: int]
       (SetSlice \<lparr>start = None, stop = None, step = Some (- 1)\<rparr> Self) = Ok [3, 2, 1, 0] \<and>
   (\<exists>r. deslice List_cls [0, 1, 2, 3 :: int] \<lparr>start = None, stop = None, step = Some (- 1)\<rparr>
          = Inr r \<and>
        (length [0, 1, 2, 3 :: int] = range_len r \<longrightarrow>
           (\<exists>s'. seq_setitem List_cls [0, 1, 2, 3 :: int]
                   (SetSlice \<lparr>start = None, stop = None, step = Some (- 1)\<rparr> Self) = Ok s' \<and>
               length s' = length [0, 1, 2, 3 :: int] \<and>
               (\<forall>k < range_len r. s' ! nat (range_list r ! k) = [0, 1, 2, 3] ! k) \<and>
               (\<forall>j < length [0, 1, 2, 3 :: int].
                  int j \<notin> set (range_list r) \<longrightarrow> s' ! j = [0, 1, 2, 3] ! j))))"
proof -
  have a: "step \<lparr>start = None, stop = None, step = Some 2\<rparr> = Some 2" by simp
  have b: "(2 :: int) \<noteq> 1" and c: "(2 :: int) \<noteq> 0" by simp_all
  have v1: "Iterable [7, 8 :: int] = Iterable [7, 8] \<or>
            (Iterable [7, 8 :: int] = Self \<and> [7, 8] = (\<lambda>s. s) [0, 1, 2, 3, 4 :: int])"
    by simp
  have v2: "Iterable [7, 8, 9 :: int] = Iterable [7, 8, 9] \<or>
            (Iterable [7, 8, 9 :: int] = Self \<and> [7, 8, 9] = (\<lambda>s. s) [0, 1, 2, 3, 4 :: int])"
    by simp
  have a': "step \<lparr>start = None, stop = None, step = Some (- 1)\<rparr> = Some (- 1)" by simp
  have b': "(- 1 :: int) \<noteq> 1" and c': "(- 1 :: int) \<noteq> 0" by simp_all
  have v3: "(Self :: int source) = Iterable [0, 1, 2, 3] \<or>
            ((Self :: int source) = Self \<and> [0, 1, 2, 3] = (\<lambda>s. s) [0, 1, 2, 3 :: int])"
    by simp
  show ?thesis
    using setitem_extended_slice [OF List_cls_mutseq_contract a b c v1]
      setitem_extended_slice [OF List_cls_mutseq_contract a b c v2]
      setitem_extended_slice [OF List_cls_mutseq_contract a' b' c' v3]
      List_cls_mutseq_contract extended_assignment_examples
    by (simp only: a b c a') blast
qed

section \<open>Assigning the object to a slice of itself\<close>

lemma delitem_each_prefix:
  assumes "mutseq_contract cls contents"
  shows "m \<le> length (contents s) \<Longrightarrow>
         \<exists>s'. delitem_each cls s (rev (map int [0..<m])) = Ok s' \<and>
              contents s' = drop m (contents s)"
proof (induction m arbitrary: s)
  case 0
  then show ?case by simp
next
  case (Suc m)
  then have lt: "m < length (contents s)" by simp
  obtain s1 where d: "cls_delitem cls s (int m) = Ok s1"
    and c1: "contents s1 = take m (contents s) @ drop (Suc m) (contents s)"
    using contract_delitem [OF assms, of "int m" s] lt by auto
  have "m \<le> length (contents s1)" using c1 lt by simp
  then obtain s' where e: "delitem_each cls s1 (rev (map int [0..<m])) = Ok s'"
    and c': "contents s' = drop m (contents s1)"
    using Suc.IH [of s1] by blast
  have "drop m (contents s1) = drop (Suc m) (contents s)"
    using c1 lt by simp
  then show ?case using d e c' by simp
qed

lemma insert_each_at:
  assumes "mutseq_contract cls contents"
  shows "i \<le> length (contents s) \<Longrightarrow>
         \<exists>s'. insert_each cls s (int i) vs = Ok s' \<and>
              contents s' = take i (contents s) @ vs @ drop i (contents s)"
proof (induction vs arbitrary: s i)
  case Nil
  then show ?case by simp
next
  case (Cons v vs)
  obtain s1 where ins: "cls_insert cls s (int i) v = Ok s1"
    and c1: "contents s1 = take i (contents s) @ v # drop i (contents s)"
    using contract_insert [OF assms, of "int i" s v] Cons.prems by auto
  have le: "Suc i \<le> length (contents s1)" using c1 Cons.prems by simp
  obtain s' where e: "insert_each cls s1 (int i + 1) vs = Ok s'"
    and c': "contents s' = take (Suc i) (contents s1) @ vs @ drop (Suc i) (contents s1)"
    using Cons.IH [OF le] by (auto simp add: add.commute)
  have t: "take (Suc i) (contents s1) = take i (contents s) @ [v]"
    using c1 Cons.prems by simp
  have dr: "drop (Suc i) (contents s1) = drop i (contents s)"
    using c1 Cons.prems by simp
  show ?case using ins e c' t dr by simp
qed

lemma deslice_all_but_last:
  assumes "seq_contract cls contents" and "contents s \<noteq> []"
  shows "deslice cls s \<lparr>start = None, stop = Some (- 1), step = None\<rparr>
           = Inr (PyRange 0 (int (length (contents s)) - 1) 1)"
  using assms(2) contract_len [OF assms(1), of s]
  by (simp add: deslice_def slice_indices_def Let_def)

lemma range_list_unit_step:
  "range_list (PyRange 0 (int n - 1) 1) = map int [0..<n - 1]"
proof -
  have "range_len (PyRange 0 (int n - 1) 1) = n - 1"
    by (auto simp add: range_len_def)
  then show ?thesis by (simp add: range_list_def)
qed

lemma self_assignment_example:
  "seq_setitem List_cls [1, 2, 3, 4, 5 :: int]
       (SetSlice \<lparr>start = None, stop = Some (- 1), step = None\<rparr> Self) = Ok [1, 2, 3, 4, 5, 5]"
  by code_simp

text \<open>
  Claim C2, as the code has it. On a mutable sequence of length \<open>n \<ge> 1\<close> that keeps the
  contract, \<open>a[:-1] = a\<close> returns (the loops run over a copy of the elements, taken before
  anything is deleted) and leaves \<open>n + 1\<close> elements: the \<open>n\<close> elements it had, followed by
  the last of them once more. This is what the comment in the code announces, the effect
  of \<open>a.append(a[-1])\<close>.
\<close>

theorem setitem_self_all_but_last:
  assumes "mutseq_contract cls contents" and "contents s \<noteq> []"
  shows "\<exists>s'. seq_setitem cls s
                 (SetSlice \<lparr>start = None, stop = Some (- 1), step = None\<rparr> Self) = Ok s' \<and>
              contents s' = contents s @ [last (contents s)] \<and>
              length (contents s') = length (contents s) + 1"
proof -
  have seqc: "seq_contract cls contents" using assms(1) by (rule mutseq_contract_seq)
  let ?n = "length (contents s)"
  let ?r = "PyRange 0 (int ?n - 1) 1"
  have r: "deslice cls s \<lparr>start = None, stop = Some (- 1), step = None\<rparr> = Inr ?r"
    using deslice_all_but_last [OF seqc assms(2)] .
  have vals: "tuple_value cls s Self ''must assign iterable to slice'' = Inr (contents s)"
    using tuple_value_items [OF seqc, of Self "contents s" s] by simp
  obtain s1 where del: "delitem_each cls s (rev (map int [0..<?n - 1])) = Ok s1"
    and c1: "contents s1 = drop (?n - 1) (contents s)"
    using delitem_each_prefix [OF assms(1), of "?n - 1" s] by auto
  have c1': "contents s1 = [last (contents s)]"
  proof -
    have "contents s = butlast (contents s) @ [last (contents s)]"
      using assms(2) by simp
    then have "drop (?n - 1) (contents s) = drop (?n - 1) (butlast (contents s) @ [last (contents s)])"
      by simp
    then show ?thesis using c1 by simp
  qed
  obtain s' where ins: "insert_each cls s1 (int 0) (contents s) = Ok s'"
    and c': "contents s' = take 0 (contents s1) @ contents s @ drop 0 (contents s1)"
    using insert_each_at [OF assms(1), of 0 s1 "contents s"] by auto
  have res: "seq_setitem cls s
                 (SetSlice \<lparr>start = None, stop = Some (- 1), step = None\<rparr> Self) = Ok s'"
    using ins del
    by (simp add: seq_setitem_def seq_setitem_slice_def r vals range_list_unit_step)
  show ?thesis using res c' c1' by simp
qed

theorem setitem_self_all_but_last_witness:
  "mutseq_contract List_cls (\<lambda>s. s) \<and> [1, 2, 3, 4, 5 :: int] \<noteq> [] \<and>
   seq_setitem List_cls [1, 2, 3, 4, 5 :: int]
       (SetSlice \<lparr>start = None, stop = Some (- 1), step = None\<rparr> Self) = Ok [1, 2, 3, 4, 5, 5] \<and>
   (\<exists>s'. seq_setitem List_cls [1, 2, 3, 4, 5 :: int]
            (SetSlice \<lparr>start = None, stop = Some (- 1), step = None\<rparr> Self) = Ok s' \<and>
         s' = [1, 2, 3, 4, 5] @ [last [1, 2, 3, 4, 5]] \<and>
         length s' = length [1, 2, 3, 4, 5 :: int] + 1)"
proof -
  have ne: "(\<lambda>s. s) [1, 2, 3, 4, 5 :: int] \<noteq> []" by simp
  show ?thesis
    using setitem_self_all_but_last [OF List_cls_mutseq_contract ne]
      List_cls_mutseq_contract self_assignment_example
    by simp
qed

text \<open>
  The length \<open>2n - 1\<close> and the elements "from index 1 onward" of the claim are not what
  happens: \<open>List([1, 2, 3])\<close> becomes \<open>[1, 2, 3, 3]\<close>, of length 4, not
  \<open>[1, 2, 3, 2, 3]\<close>.
\<close>

theorem setitem_self_counterexample:
  "seq_setitem List_cls [1, 2, 3 :: int]
       (SetSlice \<lparr>start = None, stop = Some (- 1), step = None\<rparr> Self) = Ok [1, 2, 3, 3] \<and>
   length [1, 2, 3, 3 :: int] \<noteq> 2 * length [1, 2, 3 :: int] - 1 \<and>
   [1, 2, 3, 3 :: int] \<noteq> [1, 2, 3] @ drop 1 [1, 2, 3]"
  by code_simp

section \<open>Inserting\<close>

text \<open>
  Claim C8. On a mutable sequence of length \<open>n\<close> that keeps the contract, the wrapper
  \<open>insert\<close> with an integer (or an object with \<open>__index__\<close>) \<open>i\<close> calls the class's
  \<open>insert\<close> with \<open>j\<close>, which is \<open>i + n\<close> raised to 0 when \<open>i\<close> is negative and \<open>i\<close> lowered
  to \<open>n\<close> otherwise; \<open>j\<close> is in \<open>[0, n]\<close>, and the call succeeds: no exception, the value is
  inserted before position \<open>j\<close>.
\<close>

theorem insert_clamps:
  assumes "mutseq_contract cls contents"
    and "index = PyInt i \<or> index = PyIndexable i"
    and "n = int (length (contents s))"
    and "j = (if i < 0 then max 0 (i + n) else min i n)"
  shows "0 \<le> j \<and> j \<le> n \<and>
         posinttruncify cls s index = Inr j \<and>
         seq_insert cls s index v = cls_insert cls s j v \<and>
         (\<exists>s'. seq_insert cls s index v = Ok s' \<and>
               contents s' = take (nat j) (contents s) @ v # drop (nat j) (contents s))"
proof -
  have len: "int (cls_len cls s) = n"
    using assms(1,3) by (simp add: contract_len mutseq_contract_seq)
  have n0: "0 \<le> n" using assms(3) by simp
  have bounds: "0 \<le> j \<and> j \<le> n"
    using assms(4) n0 by auto
  have trunc: "posinttruncify cls s index = Inr j"
    using assms(2,4) n0 by (auto simp add: posinttruncify_def u_posintify_def len Let_def)
  have ins: "seq_insert cls s index v = cls_insert cls s j v"
    by (simp add: seq_insert_def trunc)
  have "\<exists>s'. cls_insert cls s j v = Ok s' \<and>
          contents s' = take (nat j) (contents s) @ v # drop (nat j) (contents s)"
    using contract_insert [OF assms(1), of j s v] bounds assms(3) by simp
  then show ?thesis using bounds trunc ins by simp
qed

theorem insert_clamps_witness:
  "mutseq_contract List_cls (\<lambda>s. s) \<and>
   seq_insert List_cls [0, 1, 2 :: int] (PyInt (- 200)) 7 = cls_insert List_cls [0, 1, 2] 0 7 \<and>
   seq_insert List_cls [0, 1, 2 :: int] (PyInt (- 200)) 7 = Ok [7, 0, 1, 2] \<and>
   seq_insert List_cls [0, 1, 2 :: int] (PyIndexable 200) 7 = Ok [0, 1, 2, 7] \<and>
   seq_insert List_cls [0, 1, 2 :: int] (PyInt (- 2)) 7 = Ok [0, 7, 1, 2]"
  using insert_clamps [OF List_cls_mutseq_contract, of "PyInt (- 200)" "- 200" 3 "[0, 1, 2 :: int]" 0 7]
    insert_clamps [OF List_cls_mutseq_contract, of "PyIndexable 200" 200 3 "[0, 1, 2 :: int]" 3 7]
    insert_clamps [OF List_cls_mutseq_contract, of "PyInt (- 2)" "- 2" 3 "[0, 1, 2 :: int]" 1 7]
    List_cls_mutseq_contract
  by (simp add: List_cls_def)

section \<open>Looking a key up\<close>

text \<open>
  Claim C6. The wrapper \<open>__getitem__\<close> of a mapping returns the value of the class's own
  \<open>__getitem__\<close> when that succeeds. When that raises \<open>KeyError\<close> and the class defines
  \<open>__missing__\<close>, the wrapper calls \<open>__missing__\<close> once, after the lookup, and its outcome
  (a value or an exception, as it is) is the outcome of the wrapper; when the class defines
  no \<open>__missing__\<close>, the \<open>KeyError\<close> of the lookup is raised again.
\<close>

theorem map_getitem_dispatch:
  "(cls_lookup cls s k = Inr v \<longrightarrow> map_getitem cls s k = ([Lookup k], Inr v)) \<and>
   (cls_lookup cls s k = Inl (KeyError p) \<and> cls_missing cls = Some h \<longrightarrow>
      map_getitem cls s k = ([Lookup k, Missing k], h s k) \<and>
      count_list (fst (map_getitem cls s k)) (Missing k) = 1) \<and>
   (cls_lookup cls s k = Inl (KeyError p) \<and> cls_missing cls = None \<longrightarrow>
      map_getitem cls s k = ([Lookup k], Inl (KeyError p)))"
  by (simp add: map_getitem_def)

theorem map_getitem_dispatch_witness:
  "map_getitem FrozenKeyDict_cls [''a'' \<mapsto> ''b''] ''a'' = ([Lookup ''a''], Inr ''b'') \<and>
   map_getitem FrozenKeyDict_cls [''a'' \<mapsto> ''b''] ''z''
     = ([Lookup ''z'', Missing ''z''], Inr ''z'') \<and>
   count_list (fst (map_getitem FrozenKeyDict_cls [''a'' \<mapsto> ''b''] ''z'')) (Missing ''z'') = 1 \<and>
   map_getitem (FrozenKeyDict_cls\<lparr>cls_missing := Some (\<lambda>d key. Inl (OtherError ''RuntimeError'' key))\<rparr>)
       [''a'' \<mapsto> ''b''] ''z''
     = ([Lookup ''z'', Missing ''z''], Inl (OtherError ''RuntimeError'' ''z'')) \<and>
   map_getitem (FrozenKeyDict_cls\<lparr>cls_missing := None\<rparr>) [''a'' \<mapsto> ''b''] ''z''
     = ([Lookup ''z''], Inl (KeyError ''z''))"
  using
    map_getitem_dispatch [of FrozenKeyDict_cls "[''a'' \<mapsto> ''b'']" "''a''" "''b''" "''a''"
      "\<lambda>d key. Inr key"]
    map_getitem_dispatch [of FrozenKeyDict_cls "[''a'' \<mapsto> ''b'']" "''z''" "''b''" "''z''"
      "\<lambda>d key. Inr key"]
    map_getitem_dispatch
      [of "FrozenKeyDict_cls\<lparr>cls_missing := Some (\<lambda>d key. Inl (OtherError ''RuntimeError'' key))\<rparr>"
        "[''a'' \<mapsto> ''b'']" "''z''" "''b''" "''z''" "\<lambda>d key. Inl (OtherError ''RuntimeError'' key)"]
    map_getitem_dispatch [of "FrozenKeyDict_cls\<lparr>cls_missing := None\<rparr>"
      "[''a'' \<mapsto> ''b'']" "''z''" "''b''" "''z''" "\<lambda>d key. Inr key"]
  by (simp add: FrozenKeyDict_cls_def)

section \<open>Membership and lookup with a default\<close>

lemma mapping_helper_installs:
  assumes "is_Mapping c" and "attrs c ''__getitem__'' = Some g"
    and "attrs c ''__contains__'' = Some FromABC" and "attrs c ''get'' = Some FromABC"
  shows "\<exists>c'. mapping_helper c = Inr c' \<and> attrs c' ''__contains__'' = Some Wrapper \<and>
              attrs c' ''get'' = Some Wrapper"
  using assms by (simp add: mapping_helper_def getattr_def setattr_def Let_def)

text \<open>
  Claim C7. When the class has \<open>__contains__\<close> and \<open>get\<close> from the abstract base class
  only, the decorator installs its own. The wrapper \<open>__contains__\<close> is true when the
  class's own \<open>__getitem__\<close> succeeds (and only then) and false when it raises \<open>KeyError\<close>;
  the wrapper \<open>get\<close> returns the value found, or the default on \<open>KeyError\<close>. Both make
  one call, the lookup: \<open>__missing__\<close> is not called, and what the class defines as
  \<open>__missing__\<close> has no bearing on the result.
\<close>

theorem contains_and_get_bypass_missing:
  "(is_Mapping c \<and> attrs c ''__getitem__'' = Some g \<and>
    attrs c ''__contains__'' = Some FromABC \<and> attrs c ''get'' = Some FromABC \<longrightarrow>
      (\<exists>c'. mapping_helper c = Inr c' \<and> attrs c' ''__contains__'' = Some Wrapper \<and>
            attrs c' ''get'' = Some Wrapper)) \<and>
   (cls_lookup cls s k = Inr v \<longrightarrow>
      map_contains cls s k = ([Lookup k], Inr True) \<and>
      map_get cls s k d = ([Lookup k], Inr v)) \<and>
   (cls_lookup cls s k = Inl (KeyError p) \<longrightarrow>
      map_contains cls s k = ([Lookup k], Inr False) \<and>
      map_get cls s k d = ([Lookup k], Inr d)) \<and>
   (snd (map_contains cls s k) = Inr True \<longleftrightarrow> (\<exists>w. cls_lookup cls s k = Inr w)) \<and>
   Missing k' \<notin> set (fst (map_contains cls s k)) \<and>
   Missing k' \<notin> set (fst (map_get cls s k d)) \<and>
   map_contains (cls\<lparr>cls_missing := h\<rparr>) s k = map_contains cls s k \<and>
   map_get (cls\<lparr>cls_missing := h\<rparr>) s k d = map_get cls s k d"
proof -
  have inst: "is_Mapping c \<and> attrs c ''__getitem__'' = Some g \<and>
    attrs c ''__contains__'' = Some FromABC \<and> attrs c ''get'' = Some FromABC \<longrightarrow>
      (\<exists>c'. mapping_helper c = Inr c' \<and> attrs c' ''__contains__'' = Some Wrapper \<and>
            attrs c' ''get'' = Some Wrapper)"
    using mapping_helper_installs by blast
  have rest: "(cls_lookup cls s k = Inr v \<longrightarrow>
      map_contains cls s k = ([Lookup k], Inr True) \<and>
      map_get cls s k d = ([Lookup k], Inr v)) \<and>
   (cls_lookup cls s k = Inl (KeyError p) \<longrightarrow>
      map_contains cls s k = ([Lookup k], Inr False) \<and>
      map_get cls s k d = ([Lookup k], Inr d)) \<and>
   (snd (map_contains cls s k) = Inr True \<longleftrightarrow> (\<exists>w. cls_lookup cls s k = Inr w)) \<and>
   Missing k' \<notin> set (fst (map_contains cls s k)) \<and>
   Missing k' \<notin> set (fst (map_get cls s k d)) \<and>
   map_contains (cls\<lparr>cls_missing := h\<rparr>) s k = map_contains cls s k \<and>
   map_get (cls\<lparr>cls_missing := h\<rparr>) s k d = map_get cls s k d"
    by (cases "cls_lookup cls s k") (simp_all add: map_contains_def map_get_def)
  show ?thesis using inst rest by blast
qed

theorem contains_and_get_bypass_missing_witness:
  "(\<exists>c'. mapping_helper \<lparr>cls_name = ''FrozenKeyDict'', is_Sequence = False,
            is_MutableSequence = False, is_Mapping = True,
            attrs = map_of [(''__getitem__'', Own), (''__missing__'', Own),
                            (''__contains__'', FromABC), (''get'', FromABC)]\<rparr> = Inr c' \<and>
         attrs c' ''__contains__'' = Some Wrapper \<and> attrs c' ''get'' = Some Wrapper) \<and>
   map_contains FrozenKeyDict_cls [''a'' \<mapsto> ''b''] ''a'' = ([Lookup ''a''], Inr True) \<and>
   map_get FrozenKeyDict_cls [''a'' \<mapsto> ''b''] ''a'' ''d'' = ([Lookup ''a''], Inr ''b'') \<and>
   map_contains FrozenKeyDict_cls [''a'' \<mapsto> ''b''] ''z'' = ([Lookup ''z''], Inr False) \<and>
   map_get FrozenKeyDict_cls [''a'' \<mapsto> ''b''] ''z'' ''d'' = ([Lookup ''z''], Inr ''d'')"
  using
    contains_and_get_bypass_missing [of "\<lparr>cls_name = ''FrozenKeyDict'', is_Sequence = False,
            is_MutableSequence = False, is_Mapping = True,
            attrs = map_of [(''__getitem__'', Own), (''__missing__'', Own),
                            (''__contains__'', FromABC), (''get'', FromABC)]\<rparr>" Own
      FrozenKeyDict_cls "[''a'' \<mapsto> ''b'']" "''a''" "''b''" "''d''" "''a''"]
    contains_and_get_bypass_missing [of "\<lparr>cls_name = ''FrozenKeyDict'', is_Sequence = False,
            is_MutableSequence = False, is_Mapping = True,
            attrs = map_of [(''__getitem__'', Own), (''__missing__'', Own),
                            (''__contains__'', FromABC), (''get'', FromABC)]\<rparr>" Own
      FrozenKeyDict_cls "[''a'' \<mapsto> ''b'']" "''z''" "''b''" "''d''" "''z''"]
  by (simp add: FrozenKeyDict_cls_def)

section \<open>Classes the decorators reject\<close>

text \<open>
  Claim C9, as the code has it. A class that is not a subclass of \<open>Sequence\<close> (of
  \<open>Mapping\<close>) is rejected when it is decorated, before any attribute is read, with a
  \<open>TypeError\<close> whose message is the fixed text \<open>can only help sequences\<close> (\<open>can only help
  mappings\<close>), the same for every class.
\<close>

theorem helpers_reject_other_types:
  "(\<not> is_Sequence c \<longrightarrow> sequence_helper c = Inl (TypeError ''can only help sequences'')) \<and>
   (\<not> is_Mapping c \<longrightarrow> mapping_helper c = Inl (TypeError ''can only help mappings''))"
  by (simp add: sequence_helper_def mapping_helper_def)

theorem helpers_reject_other_types_witness:
  "sequence_helper \<lparr>cls_name = ''S'', is_Sequence = False, is_MutableSequence = False,
       is_Mapping = False,
       attrs = map_of [(''__getitem__'', Own), (''__setitem__'', Own), (''__delitem__'', Own),
                       (''__len__'', Own), (''insert'', Own)]\<rparr>
     = Inl (TypeError ''can only help sequences'') \<and>
   mapping_helper \<lparr>cls_name = ''M'', is_Sequence = False, is_MutableSequence = False,
       is_Mapping = False,
       attrs = map_of [(''__getitem__'', Own), (''__setitem__'', Own), (''__delitem__'', Own),
                       (''__iter__'', Own), (''__len__'', Own), (''__contains__'', Own),
                       (''get'', Own)]\<rparr>
     = Inl (TypeError ''can only help mappings'')"
  using
    helpers_reject_other_types [of "\<lparr>cls_name = ''S'', is_Sequence = False,
       is_MutableSequence = False, is_Mapping = False,
       attrs = map_of [(''__getitem__'', Own), (''__setitem__'', Own), (''__delitem__'', Own),
                       (''__len__'', Own), (''insert'', Own)]\<rparr>"]
    helpers_reject_other_types [of "\<lparr>cls_name = ''M'', is_Sequence = False,
       is_MutableSequence = False, is_Mapping = False,
       attrs = map_of [(''__getitem__'', Own), (''__setitem__'', Own), (''__delitem__'', Own),
                       (''__iter__'', Own), (''__len__'', Own), (''__contains__'', Own),
                       (''get'', Own)]\<rparr>"]
  by simp

text \<open>
  The message does not name the class: for the classes \<open>S\<close> and \<open>M\<close> of the test suite the
  name does not occur in it.
\<close>

theorem error_does_not_name_type_counterexample:
  "sequence_helper \<lparr>cls_name = ''S'', is_Sequence = False, is_MutableSequence = False,
       is_Mapping = False,
       attrs = map_of [(''__getitem__'', Own), (''__setitem__'', Own), (''__delitem__'', Own),
                       (''__len__'', Own), (''insert'', Own)]\<rparr>
     = Inl (TypeError ''can only help sequences'') \<and>
   \<not> occurs_in ''S'' (message (TypeError ''can only help sequences'')) \<and>
   mapping_helper \<lparr>cls_name = ''M'', is_Sequence = False, is_MutableSequence = False,
       is_Mapping = False,
       attrs = map_of [(''__getitem__'', Own), (''__setitem__'', Own), (''__delitem__'', Own),
                       (''__iter__'', Own), (''__len__'', Own), (''__contains__'', Own),
                       (''get'', Own)]\<rparr>
     = Inl (TypeError ''can only help mappings'') \<and>
   \<not> occurs_in ''M'' (message (TypeError ''can only help mappings''))"
  by (simp add: sequence_helper_def mapping_helper_def)

end
